theory Spec2Isabelle
  imports Main "HOL-Library.Sublist"
begin

section \<open>JavaScript values\<close>

text \<open>
  The extension host (\<^verbatim>\<open>extension.js\<close>) and the web view (\<^verbatim>\<open>web/src/bridge.js\<close>)
  exchange \<^verbatim>\<open>BridgeMessage\<close> objects whose \<^verbatim>\<open>data\<close>, \<^verbatim>\<open>error\<close> and \<^verbatim>\<open>id\<close> fields are
  arbitrary JavaScript values. They are modelled as a tree datatype. Numbers are the
  integers of magnitude up to \<open>2^53\<close>, which JavaScript represents exactly and prints
  in decimal (neither message ids nor chunk numbers are fractional; \<^verbatim>\<open>NaN\<close> and the
  infinities are left out). \<open>JError m\<close> is an \<^verbatim>\<open>Error\<close> object with the message \<open>m\<close>;
  \<open>JObj\<close> is a plain object with its own enumerable properties, in the order in
  which JavaScript enumerates them; none of them is a function. Functions, symbols
  and big integers are left out.
\<close>

datatype jsval =
    JUndefined
  | JNull
  | JBool bool
  | JNum int
  | JStr string
  | JArr "jsval list"
  | JObj "(string \<times> jsval) list"
  | JError string

text \<open>\<^verbatim>\<open>if (v)\<close>, \<^verbatim>\<open>! v\<close> and \<^verbatim>\<open>a || b\<close>: the falsy values are \<^verbatim>\<open>undefined\<close>, \<^verbatim>\<open>null\<close>,
  \<^verbatim>\<open>false\<close>, \<^verbatim>\<open>0\<close> and the empty string; arrays and objects are always truthy.\<close>

fun truthy :: "jsval \<Rightarrow> bool" where
  "truthy JUndefined = False"
| "truthy JNull = False"
| "truthy (JBool b) = b"
| "truthy (JNum n) = (n \<noteq> 0)"
| "truthy (JStr s) = (s \<noteq> [])"
| "truthy (JArr xs) = True"
| "truthy (JObj kvs) = True"
| "truthy (JError m) = True"

definition js_or :: "jsval \<Rightarrow> jsval \<Rightarrow> jsval" where
  "js_or a b = (if truthy a then a else b)"

text \<open>\<^verbatim>\<open>a === b\<close>: primitives compare by value; two arrays or objects that were parsed
  from a message are never the same reference.\<close>

fun strict_eq :: "jsval \<Rightarrow> jsval \<Rightarrow> bool" where
  "strict_eq (JArr xs) b = False"
| "strict_eq (JObj kvs) b = False"
| "strict_eq (JError m) b = False"
| "strict_eq a b = (a = b)"

text \<open>The value thrown when a property of \<^verbatim>\<open>undefined\<close> or \<^verbatim>\<open>null\<close> is read.\<close>

definition type_error :: jsval where
  "type_error = JError ''TypeError''"

text \<open>\<^verbatim>\<open>error.message\<close>: reading the property throws on \<^verbatim>\<open>undefined\<close> and \<^verbatim>\<open>null\<close>
  (\<open>Inl\<close>), yields the message of an \<^verbatim>\<open>Error\<close> and the property of a plain object, and
  \<^verbatim>\<open>undefined\<close> on every other value.\<close>

fun get_message :: "jsval \<Rightarrow> jsval + jsval" where
  "get_message JUndefined = Inl type_error"
| "get_message JNull = Inl type_error"
| "get_message (JObj kvs) =
     Inr (case map_of kvs ''message'' of None \<Rightarrow> JUndefined | Some v \<Rightarrow> v)"
| "get_message (JError m) = Inr (JStr m)"
| "get_message v = Inr JUndefined"

text \<open>\<^verbatim>\<open>xs.concat(v)\<close>: an array argument is spread one level, any other value is
  appended as one element.\<close>

fun js_concat :: "jsval list \<Rightarrow> jsval \<Rightarrow> jsval list" where
  "js_concat xs (JArr ys) = xs @ ys"
| "js_concat xs v = xs @ [v]"

text \<open>The decimal digits of a natural number.\<close>

definition digit_char :: "nat \<Rightarrow> char" where
  "digit_char d = ''0123456789'' ! d"

fun digits :: "nat \<Rightarrow> string" where
  "digits n = (if n < 10 then [digit_char n] else digits (n div 10) @ [digit_char (n mod 10)])"

definition show_int :: "int \<Rightarrow> string" where
  "show_int n = (if n < 0 then CHR ''-'' # digits (nat (- n)) else digits (nat n))"

text \<open>\<^verbatim>\<open>strings.join(',')\<close>.\<close>

fun join_comma :: "string list \<Rightarrow> string" where
  "join_comma [] = []"
| "join_comma [s] = s"
| "join_comma (s # t # ss) = s @ '','' @ join_comma (t # ss)"

text \<open>
  \<^verbatim>\<open>String(v)\<close>: an array is the comma-joined strings of its elements, where
  \<^verbatim>\<open>undefined\<close> and \<^verbatim>\<open>null\<close> elements are empty; a plain object is \<^verbatim>\<open>[object Object]\<close>; an
  \<^verbatim>\<open>Error\<close> is its name and message.
\<close>

fun to_string :: "jsval \<Rightarrow> string" where
  "to_string JUndefined = ''undefined''"
| "to_string JNull = ''null''"
| "to_string (JBool b) = (if b then ''true'' else ''false'')"
| "to_string (JNum n) = show_int n"
| "to_string (JStr s) = s"
| "to_string (JArr xs) =
     join_comma (map (\<lambda>x. if x = JUndefined \<or> x = JNull then [] else to_string x) xs)"
| "to_string (JObj kvs) = ''[object Object]''"
| "to_string (JError m) = (if m = [] then ''Error'' else ''Error: '' @ m)"

text \<open>
  Whether \<^verbatim>\<open>String(v)\<close> returns. A plain object with a property \<^verbatim>\<open>toString\<close> of its own
  has no callable \<^verbatim>\<open>toString\<close>, and the \<^verbatim>\<open>valueOf\<close> tried next gives no primitive
  value: the conversion throws a \<^verbatim>\<open>TypeError\<close>, also from inside an array.
\<close>

fun stringifiable :: "jsval \<Rightarrow> bool" where
  "stringifiable (JArr xs) = list_all stringifiable xs"
| "stringifiable (JObj kvs) = (''toString'' \<notin> set (map fst kvs))"
| "stringifiable v = True"

text \<open>
  \<^verbatim>\<open>table[v]\<close> on an object: the property is named by the string of \<open>v\<close>, so the number
  \<open>1\<close> and the string \<^verbatim>\<open>"1"\<close> name the same property. When the conversion to a string
  throws, so does the access (\<open>Inl\<close>).
\<close>

definition property_key :: "jsval \<Rightarrow> jsval + string" where
  "property_key v = (if stringifiable v then Inr (to_string v) else Inl type_error)"

text \<open>
  The properties every plain object inherits from \<^verbatim>\<open>Object.prototype\<close>. All are
  truthy. Called as a plain function with a message as its argument (in a module,
  \<^verbatim>\<open>this\<close> is then \<^verbatim>\<open>undefined\<close>), \<^verbatim>\<open>constructor\<close> returns the message and \<^verbatim>\<open>toString\<close>
  returns a string; the others throw a \<^verbatim>\<open>TypeError\<close>, since they convert \<^verbatim>\<open>this\<close> to an
  object or, for \<^verbatim>\<open>__proto__\<close>, since the value is not a function.
\<close>

definition object_prototype_members :: "string list" where
  "object_prototype_members =
     [''constructor'', ''__defineGetter__'', ''__defineSetter__'', ''hasOwnProperty'',
      ''__lookupGetter__'', ''__lookupSetter__'', ''isPrototypeOf'', ''propertyIsEnumerable'',
      ''toString'', ''valueOf'', ''__proto__'', ''toLocaleString'']"

definition inherited_call_returns :: "string \<Rightarrow> bool" where
  "inherited_call_returns key \<longleftrightarrow> key = ''constructor'' \<or> key = ''toString''"

text \<open>
  \<^verbatim>\<open>JSON.parse(JSON.stringify(v))\<close> for a value inside a message: \<^verbatim>\<open>undefined\<close> becomes
  \<^verbatim>\<open>null\<close> as an array element and is left out as the value of a property; an \<^verbatim>\<open>Error\<close>
  has no enumerable property of its own and becomes the empty object. On
  \<^verbatim>\<open>undefined\<close> itself the function is the identity: a property with that value is
  absent from the text, and an absent property reads as \<^verbatim>\<open>undefined\<close>.
\<close>

fun json_value :: "jsval \<Rightarrow> jsval" where
  "json_value (JArr xs) = JArr (map (\<lambda>x. if x = JUndefined then JNull else json_value x) xs)"
| "json_value (JObj kvs) =
     JObj (map (\<lambda>kv. (fst kv, json_value (snd kv))) (filter (\<lambda>kv. snd kv \<noteq> JUndefined) kvs))"
| "json_value (JError m) = JObj []"
| "json_value v = v"

text \<open>The values built from \<^verbatim>\<open>null\<close>, booleans, numbers, strings, arrays and plain
  objects only.\<close>

fun json_clean :: "jsval \<Rightarrow> bool" where
  "json_clean JUndefined = False"
| "json_clean (JError m) = False"
| "json_clean (JArr xs) = list_all json_clean xs"
| "json_clean (JObj kvs) = list_all (\<lambda>kv. json_clean (snd kv)) kvs"
| "json_clean v = True"

section \<open>JavaScript string replacement\<close>

text \<open>The first occurrence of a pattern string: the text before it and the text
  after it. The empty pattern occurs at position 0.\<close>

fun split_at_first :: "string \<Rightarrow> string \<Rightarrow> (string \<times> string) option" where
  "split_at_first p [] = (if p = [] then Some ([], []) else None)"
| "split_at_first p (c # s) =
     (if prefix p (c # s) then Some ([], drop (length p) (c # s))
      else map_option (\<lambda>(b, a). (c # b, a)) (split_at_first p s))"

text \<open>The replacement patterns of \<^verbatim>\<open>String.prototype.replace\<close> for a string pattern
  (no capture groups): \<^verbatim>\<open>$$\<close> is a dollar sign, \<^verbatim>\<open>$&\<close> the matched text, a dollar
  sign and a backquote the text before the match, a dollar sign and a quote the text
  after it; every other character, a lone dollar sign included, stands for itself.\<close>

fun get_substitution :: "string \<Rightarrow> string \<Rightarrow> string \<Rightarrow> string \<Rightarrow> string" where
  "get_substitution m b a [] = []"
| "get_substitution m b a [c] = [c]"
| "get_substitution m b a (c # d # r) =
     (if c = CHR ''$'' \<and> d = CHR ''$'' then CHR ''$'' # get_substitution m b a r
      else if c = CHR ''$'' \<and> d = CHR ''&'' then m @ get_substitution m b a r
      else if c = CHR ''$'' \<and> d = CHR 0x60 then b @ get_substitution m b a r
      else if c = CHR ''$'' \<and> d = CHR 0x27 then a @ get_substitution m b a r
      else c # get_substitution m b a (d # r))"

text \<open>\<^verbatim>\<open>s.replace(pattern, replacement)\<close> with a string pattern: only the first
  occurrence is replaced, and a string without the pattern is returned as it is.\<close>

definition js_replace :: "string \<Rightarrow> string \<Rightarrow> string \<Rightarrow> string" where
  "js_replace s p r =
     (case split_at_first p s of
        None \<Rightarrow> s
      | Some (b, a) \<Rightarrow> b @ get_substitution p b a r @ a)"

text \<open>\<^verbatim>\<open>stash_refs.replaceAll('\n', ' ')\<close>: every line feed becomes a space.\<close>

definition replace_all_newlines :: "string \<Rightarrow> string" where
  "replace_all_newlines s = map (\<lambda>c. if c = CHR 0x0A then CHR '' '' else c) s"

section \<open>Bridge messages\<close>

text \<open>
  A \<^verbatim>\<open>BridgeMessage\<close>. A field that is absent reads as \<^verbatim>\<open>undefined\<close>; the \<^verbatim>\<open>error\<close>
  field is an option, so that a response whose error was never assigned differs from
  one that carries an error value.
\<close>

record bridge_message =
  msg_type :: string
  msg_id :: jsval
  msg_command :: string
  msg_data :: jsval
  msg_error :: "jsval option"
  msg_chunk :: jsval
  msg_total_chunks :: jsval

text \<open>
  \<^verbatim>\<open>JSON.stringify(msg)\<close>: the text is modelled by the message that \<^verbatim>\<open>JSON.parse\<close> reads
  back from it. (For the values of the model \<^verbatim>\<open>JSON.stringify\<close> does not throw.)
\<close>

definition json_stringify :: "bridge_message \<Rightarrow> bridge_message" where
  "json_stringify msg =
     msg\<lparr>msg_id := json_value (msg_id msg),
         msg_data := json_value (msg_data msg),
         msg_error := (case msg_error msg of
                         None \<Rightarrow> None
                       | Some e \<Rightarrow> if e = JUndefined then None else Some (json_value e)),
         msg_chunk := json_value (msg_chunk msg),
         msg_total_chunks := json_value (msg_total_chunks msg)\<rparr>"

section \<open>The extension host: answering requests of the web view\<close>

text \<open>
  \<^verbatim>\<open>webview_container\<close> is \<^verbatim>\<open>null\<close> until a panel or view is created and again after
  the panel is disposed. A container is modelled by the JSON texts posted to its web
  view, oldest first. \<^verbatim>\<open>post_message\<close> serialises the message with \<^verbatim>\<open>JSON.stringify\<close> and
  posts the text through \<^verbatim>\<open>webview_container?.webview.postMessage\<close>: without a container
  nothing is posted. (The notification pop-up it also shows is not part of the
  message traffic.)
\<close>

type_synonym webview = "bridge_message list"

definition post_message :: "bridge_message \<Rightarrow> webview option \<Rightarrow> webview option" where
  "post_message msg webview_container =
     map_option (\<lambda>texts. texts @ [json_stringify msg]) webview_container"

text \<open>
  The helper \<^verbatim>\<open>h\<close> of the message listener. \<open>outcome\<close> is how \<^verbatim>\<open>await func()\<close> ends:
  \<open>Inl error\<close> when the command's function throws or rejects, \<open>Inr data\<close> when it
  returns. \<open>webview_container\<close> is the container at the moment the function has
  settled. The result is how \<^verbatim>\<open>h\<close> itself ends (it throws when the \<^verbatim>\<open>catch\<close> block
  reads \<^verbatim>\<open>error.message\<close> of \<^verbatim>\<open>undefined\<close> or \<^verbatim>\<open>null\<close>) and the container afterwards.
\<close>

definition h :: "bridge_message \<Rightarrow> jsval + jsval \<Rightarrow> webview option \<Rightarrow> (jsval + unit) \<times> webview option" where
  "h message outcome webview_container =
     (let resp = \<lparr>msg_type = ''response-to-web'', msg_id = msg_id message, msg_command = [],
                  msg_data = JUndefined, msg_error = None,
                  msg_chunk = JUndefined, msg_total_chunks = JUndefined\<rparr>
      in case outcome of
           Inr data \<Rightarrow> (Inr (), post_message (resp\<lparr>msg_data := data\<rparr>) webview_container)
         | Inl error \<Rightarrow>
             (case get_message error of
                Inl thrown \<Rightarrow> (Inl thrown, webview_container)
              | Inr m \<Rightarrow>
                  (Inr (), post_message (resp\<lparr>msg_error := Some (js_or m error), msg_data := JUndefined\<rparr>)
                             webview_container)))"

text \<open>The commands of a \<^verbatim>\<open>request-from-web\<close> message that the listener answers through
  \<^verbatim>\<open>h\<close>, in the order of the \<^verbatim>\<open>switch\<close>.\<close>

definition h_commands :: "string list" where
  "h_commands = [''git'', ''git-log'', ''show-error-message'', ''show-information-message'',
     ''get-config'', ''get-state'', ''set-state'', ''open-diff'', ''open-multi-diff'',
     ''view-rev'', ''open-file'']"

text \<open>
  The listener registered with \<^verbatim>\<open>view.onDidReceiveMessage\<close>. \<open>func\<close> gives, for a
  request, how the function of its command ends. A message of another type or with
  another command falls through both \<^verbatim>\<open>switch\<close> statements: nothing happens.
\<close>

definition on_did_receive_message ::
  "(bridge_message \<Rightarrow> jsval + jsval) \<Rightarrow> bridge_message \<Rightarrow> webview option
     \<Rightarrow> (jsval + unit) \<times> webview option" where
  "on_did_receive_message func message webview_container =
     (if msg_type message = ''request-from-web'' \<and> msg_command message \<in> set h_commands
      then h message (func message) webview_container
      else (Inr (), webview_container))"

section \<open>The extension host: the \<^verbatim>\<open>git-log\<close> command\<close>

text \<open>The request data \<^verbatim>\<open>{ args, fetch_stash_refs, fetch_branches }\<close>.\<close>

record git_log_data =
  args :: string
  fetch_stash_refs :: bool
  fetch_branches :: bool

definition sep :: string where
  "sep = ''^%^%^%^%^''"

text \<open>The placeholder the web view leaves in \<^verbatim>\<open>args\<close> and the text it is replaced by.\<close>

definition ext_format_placeholder :: string where
  "ext_format_placeholder = '' --pretty={EXT_FORMAT}''"

definition pretty_format_arg :: string where
  "pretty_format_arg =
     '' --pretty=format:\"'' @ sep @ ''%H'' @ sep @ ''%h'' @ sep @ ''%aN'' @ sep @ ''%aE''
       @ sep @ ''%ad'' @ sep @ ''%D'' @ sep @ ''%s\"''"

definition stash_refs_placeholder :: string where
  "stash_refs_placeholder = ''{STASH_REFS}''"

definition stash_refs_cmd :: string where
  "stash_refs_cmd = ''stash list --format=\"%h\"''"

definition branch_list_cmd :: string where
  "branch_list_cmd =
     ''branch --list --all --format=\"%(upstream:remotename)'' @ sep @ ''%(refname)\"''"

definition stash_list_cmd :: string where
  "stash_list_cmd = ''stash list --format=\"%h %gd\"''"

text \<open>The result the handler starts from: \<^verbatim>\<open>{ commits: [], refs: [] }\<close>.\<close>

definition empty_parsed :: jsval where
  "empty_parsed = JObj [(''commits'', JArr []), (''refs'', JArr [])]"

text \<open>
  What the handler does to the outside, in the order in which it starts it: a git
  command handed to \<^verbatim>\<open>git.run\<close>, or a call of \<^verbatim>\<open>parse\<close> with its five arguments.
\<close>

datatype effect =
    GitRun string
  | Parse string string string string jsval

text \<open>\<^verbatim>\<open>promise.catch(() => v)\<close>: a rejection becomes the value \<open>v\<close>.\<close>

definition promise_catch :: "'e + 'a \<Rightarrow> 'a \<Rightarrow> 'e + 'a" where
  "promise_catch p v = (case p of Inl e \<Rightarrow> Inr v | Inr x \<Rightarrow> Inr x)"

text \<open>
  \<^verbatim>\<open>await Promise.all([a, b, c])\<close>: the three values once all three promises are
  fulfilled, a rejection when one of them rejects. With several rejections JavaScript
  reports the one that happens first in time; the model reports the first in the array.
\<close>

definition promise_all3 :: "'e + 'a \<Rightarrow> 'e + 'b \<Rightarrow> 'e + 'c \<Rightarrow> 'e + ('a \<times> 'b \<times> 'c)" where
  "promise_all3 a b c =
     (case a of
        Inl e \<Rightarrow> Inl e
      | Inr x \<Rightarrow>
          (case b of
             Inl e \<Rightarrow> Inl e
           | Inr y \<Rightarrow> (case c of Inl e \<Rightarrow> Inl e | Inr z \<Rightarrow> Inr (x, y, z))))"

text \<open>
  The first step: the stash hashes that replace \<^verbatim>\<open>{STASH_REFS}\<close>, fetched only when
  the request asks for them. This call has no \<^verbatim>\<open>catch\<close>.
\<close>

definition stash_refs_step :: "(string \<Rightarrow> jsval + string) \<Rightarrow> git_log_data \<Rightarrow> jsval + string" where
  "stash_refs_step run d = (if fetch_stash_refs d then run stash_refs_cmd else Inr [])"

definition stash_refs_effects :: "git_log_data \<Rightarrow> effect list" where
  "stash_refs_effects d = (if fetch_stash_refs d then [GitRun stash_refs_cmd] else [])"

text \<open>The two \<^verbatim>\<open>args.replace\<close> calls: the history-listing command that is run.\<close>

definition log_args :: "git_log_data \<Rightarrow> string \<Rightarrow> string" where
  "log_args d stash_refs =
     js_replace (js_replace (args d) ext_format_placeholder pretty_format_arg)
       stash_refs_placeholder (replace_all_newlines stash_refs)"

definition branch_step :: "(string \<Rightarrow> jsval + string) \<Rightarrow> git_log_data \<Rightarrow> jsval + string" where
  "branch_step run d = (if fetch_branches d then run branch_list_cmd else Inr [])"

definition gather_effects :: "git_log_data \<Rightarrow> string \<Rightarrow> effect list" where
  "gather_effects d stash_refs =
     [GitRun (log_args d stash_refs)]
     @ (if fetch_branches d then [GitRun branch_list_cmd] else [])
     @ [GitRun stash_list_cmd]"

text \<open>
  The function of the \<^verbatim>\<open>git-log\<close> command. \<open>run\<close> is \<^verbatim>\<open>git.run\<close>: for a command, the
  text git prints or the error it is rejected with. \<open>parse\<close> is the \<^verbatim>\<open>parse\<close> of
  \<^verbatim>\<open>./log-parser\<close>, which may throw. \<open>curve_radius\<close> is the \<^verbatim>\<open>curve-radius\<close> setting,
  handed on as it is.
  The result is how the function ends, with the effects it started, in order.
\<close>

definition git_log ::
  "(string \<Rightarrow> jsval + string)
     \<Rightarrow> (string \<Rightarrow> string \<Rightarrow> string \<Rightarrow> string \<Rightarrow> jsval \<Rightarrow> jsval + jsval)
     \<Rightarrow> jsval \<Rightarrow> git_log_data \<Rightarrow> (jsval + jsval) \<times> effect list" where
  "git_log run parse curve_radius d =
     (case stash_refs_step run d of
        Inl e \<Rightarrow> (Inl e, stash_refs_effects d)
      | Inr stash_refs \<Rightarrow>
          (let started = stash_refs_effects d @ gather_effects d stash_refs in
           case promise_all3 (run (log_args d stash_refs)) (branch_step run d)
                  (promise_catch (run stash_list_cmd) []) of
             Inl e \<Rightarrow> (Inl e, started)
           | Inr (log_data, branch_data, stash_data) \<Rightarrow>
               if log_data \<noteq> []
               then (parse log_data branch_data stash_data sep curve_radius,
                     started @ [Parse log_data branch_data stash_data sep curve_radius])
               else (Inr empty_parsed, started)))"

text \<open>The \<^verbatim>\<open>parse\<close> calls among a list of effects.\<close>

fun is_parse :: "effect \<Rightarrow> bool" where
  "is_parse (Parse l b s x r) = True"
| "is_parse (GitRun c) = False"

section \<open>The web view: \<^verbatim>\<open>bridge.js\<close>\<close>

text \<open>
  The module state of \<^verbatim>\<open>bridge.js\<close>, and two lists that record what the module does
  to the outside: the requests handed to \<^verbatim>\<open>vscode.postMessage\<close> and the promises that
  were resolved. The tables \<^verbatim>\<open>response_handlers\<close> and \<^verbatim>\<open>response_chunks\<close> are plain
  objects: a map from property names to values holds their own properties, and a
  name that is not among them is looked up in \<^verbatim>\<open>Object.prototype\<close>. The \<^verbatim>\<open>ok\<close> callback
  stored in \<^verbatim>\<open>response_handlers\<close> resolves the promise of one \<^verbatim>\<open>exchange_message\<close> call;
  it is identified by the request that call sent.
\<close>

record bridge =
  response_handlers :: "string \<rightharpoonup> bridge_message"
  message_id_counter :: int
  response_chunks :: "string \<rightharpoonup> jsval list"
  posted :: "bridge_message list"
  resolved :: "(bridge_message \<times> bridge_message) list"

definition initial_bridge :: bridge where
  "initial_bridge =
     \<lparr>response_handlers = Map.empty, message_id_counter = 0, response_chunks = Map.empty,
      posted = [], resolved = []\<rparr>"

text \<open>
  \<^verbatim>\<open>message_id_counter++\<close>: up to \<open>2^53\<close> the counter grows by one; the number after
  \<open>2^53\<close> is not a double, and the sum rounds back to \<open>2^53\<close>.
\<close>

definition js_increment :: "int \<Rightarrow> int" where
  "js_increment n = (if n < 2 ^ 53 then n + 1 else n)"

text \<open>\<^verbatim>\<open>handler(message); delete response_handlers[message.id]\<close> for a handler of the
  table's own; \<open>key\<close> is the property name of the message's id.\<close>

definition dispatch_response :: "string \<Rightarrow> bridge_message \<Rightarrow> bridge_message \<Rightarrow> bridge \<Rightarrow> bridge" where
  "dispatch_response key handler message st =
     st\<lparr>resolved := resolved st @ [(handler, message)],
        response_handlers := (response_handlers st)(key := None)\<rparr>"

text \<open>The error the listener throws for a message nobody waits for. (Its message ends
  with the JSON text of the message, which is left out.)\<close>

definition unhandled :: "string \<Rightarrow> bridge_message \<Rightarrow> jsval" where
  "unhandled what message = JError what"

text \<open>
  \<^verbatim>\<open>(response_chunks[message.id] || [])\<close>, ready for \<^verbatim>\<open>.concat\<close>: the chunks stored under
  the name, the empty array when there are none; an inherited member has no
  \<^verbatim>\<open>concat\<close>, and calling it throws.
\<close>

definition chunks_so_far :: "(string \<rightharpoonup> jsval list) \<Rightarrow> string \<Rightarrow> jsval + jsval list" where
  "chunks_so_far chunks key =
     (case chunks key of
        Some cs \<Rightarrow> Inr cs
      | None \<Rightarrow> if key \<in> set object_prototype_members then Inl type_error else Inr [])"

text \<open>
  The listener of the window's \<^verbatim>\<open>message\<close> event, on the message parsed from the
  event's text. It ends by throwing (\<open>Inl\<close>, the state untouched) or normally. A
  response whose id names no handler of the table's own finds an inherited member
  of \<^verbatim>\<open>Object.prototype\<close> when it names one: that member is called instead of a handler,
  and the \<^verbatim>\<open>delete\<close> that follows removes nothing. \<open>push\<close> is how the dispatch of a
  \<^verbatim>\<open>push-to-web\<close> message ends; push handlers are callbacks of the importing modules
  and do not touch the tables of this state (a call of \<^verbatim>\<open>exchange_message\<close> from one
  of them is an event of its own).
\<close>

definition window_message_listener ::
  "(bridge_message \<Rightarrow> jsval + unit) \<Rightarrow> bridge_message \<Rightarrow> bridge \<Rightarrow> (jsval + unit) \<times> bridge" where
  "window_message_listener push message st =
     (if msg_type message = ''response-to-web'' then
        (case property_key (msg_id message) of
           Inl thrown \<Rightarrow> (Inl thrown, st)
         | Inr key \<Rightarrow>
             (case response_handlers st key of
                Some handler \<Rightarrow>
                  if truthy (msg_chunk message) then
                    (case chunks_so_far (response_chunks st) key of
                       Inl thrown \<Rightarrow> (Inl thrown, st)
                     | Inr cs \<Rightarrow>
                         (let chunks = js_concat cs (msg_data message)
                          in if strict_eq (msg_chunk message) (msg_total_chunks message)
                             then (Inr (), dispatch_response key handler (message\<lparr>msg_data := JArr chunks\<rparr>)
                                             (st\<lparr>response_chunks := (response_chunks st)(key := None)\<rparr>))
                             else (Inr (), st\<lparr>response_chunks := (response_chunks st)(key \<mapsto> chunks)\<rparr>)))
                  else (Inr (), dispatch_response key handler message st)
              | None \<Rightarrow>
                  if key \<in> set object_prototype_members then
                    (if truthy (msg_chunk message) then (Inl type_error, st)
                     else if inherited_call_returns key then (Inr (), st)
                     else (Inl type_error, st))
                  else (Inl (unhandled ''unhandled message response id: '' message), st)))
      else if msg_type message = ''push-to-web'' then (push message, st)
      else (Inr (), st))"

text \<open>
  \<^verbatim>\<open>exchange_message\<close> up to its \<^verbatim>\<open>await\<close>: the counter is incremented, the request is
  posted, and the promise's \<^verbatim>\<open>ok\<close> is stored under the counter (the executor of
  \<^verbatim>\<open>new Promise\<close> runs at once). The result is the request and the new state.
\<close>

definition exchange_message_send :: "string \<Rightarrow> jsval \<Rightarrow> bridge \<Rightarrow> bridge_message \<times> bridge" where
  "exchange_message_send command data st =
     (let counter = js_increment (message_id_counter st);
          request = \<lparr>msg_type = ''request-from-web'', msg_id = JNum counter,
                     msg_command = command, msg_data = data, msg_error = None,
                     msg_chunk = JUndefined, msg_total_chunks = JUndefined\<rparr>
      in (request,
          st\<lparr>message_id_counter := counter,
             posted := posted st @ [request],
             response_handlers := (response_handlers st)(to_string (JNum counter) \<mapsto> request)\<rparr>))"

text \<open>
  The error \<^verbatim>\<open>exchange_message\<close> throws: its message is the JSON text of
  \<^verbatim>\<open>{ error_response, request }\<close>, and \<^verbatim>\<open>message_error_response\<close> holds the response's
  error again.
\<close>

datatype exchange_error = ExchangeError (error_response: jsval) (error_request: bridge_message)

text \<open>\<^verbatim>\<open>resp.error\<close>: an absent field reads as \<^verbatim>\<open>undefined\<close>.\<close>

definition read_error :: "bridge_message \<Rightarrow> jsval" where
  "read_error resp = (case msg_error resp of None \<Rightarrow> JUndefined | Some e \<Rightarrow> e)"

text \<open>\<^verbatim>\<open>exchange_message\<close> after its \<^verbatim>\<open>await\<close>, once the promise was resolved with \<open>resp\<close>.\<close>

definition exchange_message_result :: "bridge_message \<Rightarrow> bridge_message \<Rightarrow> exchange_error + jsval" where
  "exchange_message_result request resp =
     (if truthy (read_error resp) then Inl (ExchangeError (read_error resp) request)
      else Inr (msg_data resp))"

text \<open>
  What happens to the module, one event after the other: a call of
  \<^verbatim>\<open>exchange_message\<close>, or a message arriving at the window. A listener that throws
  leaves the state as it was.
\<close>

datatype bridge_event =
    Exchange string jsval
  | Message bridge_message

fun step :: "(bridge_message \<Rightarrow> jsval + unit) \<Rightarrow> bridge_event \<Rightarrow> bridge \<Rightarrow> bridge" where
  "step push (Exchange command data) st = snd (exchange_message_send command data st)"
| "step push (Message message) st = snd (window_message_listener push message st)"

definition run_events :: "(bridge_message \<Rightarrow> jsval + unit) \<Rightarrow> bridge_event list \<Rightarrow> bridge" where
  "run_events push evs = fold (step push) evs initial_bridge"

text \<open>The messages that reached the web view of a container, none without one.\<close>

definition posted_messages :: "webview option \<Rightarrow> bridge_message list" where
  "posted_messages webview_container = (case webview_container of None \<Rightarrow> [] | Some ms \<Rightarrow> ms)"

text \<open>The response \<^verbatim>\<open>h\<close> builds for a request: its type, the request's id, and the
  data and error given.\<close>

definition response_to :: "bridge_message \<Rightarrow> jsval \<Rightarrow> jsval option \<Rightarrow> bridge_message" where
  "response_to message data err =
     \<lparr>msg_type = ''response-to-web'', msg_id = msg_id message, msg_command = [],
      msg_data = data, msg_error = err, msg_chunk = JUndefined, msg_total_chunks = JUndefined\<rparr>"

section \<open>Example inputs\<close>

text \<open>
  A request as the web view sends it, a git that answers the four commands of that
  request (its stash listing fails unless \<open>stash_ok\<close>), a git without a working
  \<^verbatim>\<open>stash list\<close>, a \<^verbatim>\<open>parse\<close> that returns the texts it was given, and events of the web
  view.
\<close>

definition example_request :: git_log_data where
  "example_request =
     \<lparr>args = ''log --graph --pretty={EXT_FORMAT} --all {STASH_REFS}'',
      fetch_stash_refs = True, fetch_branches = True\<rparr>"

definition example_log_cmd :: string where
  "example_log_cmd =
     ''log --graph --pretty=format:\"^%^%^%^%^%H^%^%^%^%^%h^%^%^%^%^%aN^%^%^%^%^%aE^%^%^%^%^%ad^%^%^%^%^%D^%^%^%^%^%s\" --all a1b2c3d''"

definition example_log_text :: string where
  "example_log_text =
     ''* ^%^%^%^%^1f2e3d4c^%^%^%^%^1f2e^%^%^%^%^Ann^%^%^%^%^ann at example.org^%^%^%^%^2024-01-01^%^%^%^%^HEAD -> main^%^%^%^%^first commit''"

definition example_branch_text :: string where
  "example_branch_text = ''origin^%^%^%^%^refs/heads/main''"

definition example_git :: "bool \<Rightarrow> string \<Rightarrow> jsval + string" where
  "example_git stash_ok c =
     (if c = stash_refs_cmd then Inr ''a1b2c3d''
      else if c = stash_list_cmd then
        (if stash_ok then Inr ''a1b2c3d stash-0''
         else Inl (JError ''git failed''))
      else if c = branch_list_cmd then Inr example_branch_text
      else if c = example_log_cmd then Inr example_log_text
      else Inl (JError ''unknown command''))"

definition example_parse :: "string \<Rightarrow> string \<Rightarrow> string \<Rightarrow> string \<Rightarrow> jsval \<Rightarrow> jsval + jsval" where
  "example_parse l b s x r =
     Inr (JObj [(''commits'', JArr [JStr l]), (''refs'', JArr [JStr b, JStr s])])"

definition example_message :: bridge_message where
  "example_message =
     \<lparr>msg_type = ''request-from-web'', msg_id = JNum 7, msg_command = ''git-log'',
      msg_data = JUndefined, msg_error = None, msg_chunk = JUndefined,
      msg_total_chunks = JUndefined\<rparr>"


definition example_push :: "bridge_message \<Rightarrow> jsval + unit" where
  "example_push message = Inr ()"

definition example_response :: "jsval \<Rightarrow> jsval \<Rightarrow> jsval option \<Rightarrow> bridge_message" where
  "example_response i data err =
     \<lparr>msg_type = ''response-to-web'', msg_id = i, msg_command = [], msg_data = data,
      msg_error = err, msg_chunk = JUndefined, msg_total_chunks = JUndefined\<rparr>"

definition example_events :: "bridge_event list" where
  "example_events =
     [Exchange ''git'' (JStr ''status''),
      Exchange ''git-log'' JNull,
      Message (example_response (JNum 2) (JObj [(''commits'', JArr []), (''refs'', JArr [])]) None),
      Message (example_response (JNum 2) JNull None),
      Message (example_response (JStr ''constructor'') JNull None),
      Message (example_response (JNum 1) JUndefined (Some (JStr ''not a git repository'')))]"

section \<open>The invariant of \<^verbatim>\<open>bridge.js\<close>\<close>

text \<open>
  What holds of the module state after any sequence of events, as long as the
  counter is below \<open>2^53\<close>: the requests posted so far carry the ids \<open>1\<close> to
  \<^verbatim>\<open>message_id_counter\<close>, in that order; a handler stored under a name belongs to the
  posted request whose id has that name; a resolved promise was resolved with a
  response whose id has the name of its request's id, and its handler is gone; no
  request was resolved twice.
\<close>

definition bridge_inv :: "bridge \<Rightarrow> bool" where
  "bridge_inv st \<longleftrightarrow>
     0 \<le> message_id_counter st
   \<and> (message_id_counter st < 2 ^ 53 \<longrightarrow>
        map msg_id (posted st) = map JNum [1..message_id_counter st]
      \<and> (\<forall>k req. response_handlers st k = Some req \<longrightarrow>
            property_key (msg_id req) = Inr k \<and> req \<in> set (posted st))
      \<and> (\<forall>(req, resp) \<in> set (resolved st).
            property_key (msg_id resp) = property_key (msg_id req) \<and> req \<in> set (posted st)
          \<and> (\<exists>k. property_key (msg_id req) = Inr k \<and> response_handlers st k = None))
      \<and> distinct (map (\<lambda>(req, resp). msg_id req) (resolved st)))"

section \<open>Lemmas\<close>

subsection \<open>The \<^verbatim>\<open>git-log\<close> command\<close>

lemma promise_all3_Inr:
  "promise_all3 a b c = Inr (x, y, z) \<longleftrightarrow> a = Inr x \<and> b = Inr y \<and> c = Inr z"
  by (simp add: promise_all3_def split: sum.splits)

lemma is_parse_started:
  "filter is_parse (stash_refs_effects d) = []"
  "filter is_parse (gather_effects d stash_refs) = []"
  by (simp_all add: stash_refs_effects_def gather_effects_def)

text \<open>The command once its three texts are gathered.\<close>

lemma git_log_gathered:
  assumes "stash_refs_step run d = Inr stash_refs"
    and "run (log_args d stash_refs) = Inr log_text"
    and "branch_step run d = Inr branch_text"
    and "promise_catch (run stash_list_cmd) [] = Inr stash_text"
  shows "git_log run parse curve_radius d =
      (if log_text \<noteq> []
       then (parse log_text branch_text stash_text sep curve_radius,
             (stash_refs_effects d @ gather_effects d stash_refs)
               @ [Parse log_text branch_text stash_text sep curve_radius])
       else (Inr empty_parsed, stash_refs_effects d @ gather_effects d stash_refs))"
proof -
  have "promise_all3 (run (log_args d stash_refs)) (branch_step run d)
          (promise_catch (run stash_list_cmd) []) = Inr (log_text, branch_text, stash_text)"
    using assms by (simp add: promise_all3_Inr)
  then show ?thesis
    using assms(1) by (simp add: git_log_def)
qed

text \<open>A \<^verbatim>\<open>parse\<close> call among the effects is the last effect, and it was given what the
  three gathered commands printed.\<close>

lemma git_log_parse_effectD:
  assumes "Parse l b s x r \<in> set (snd (git_log run parse curve_radius d))"
  shows "\<exists>stash_refs.
      stash_refs_step run d = Inr stash_refs
    \<and> run (log_args d stash_refs) = Inr l
    \<and> branch_step run d = Inr b
    \<and> promise_catch (run stash_list_cmd) [] = Inr s
    \<and> x = sep \<and> r = curve_radius \<and> l \<noteq> []
    \<and> snd (git_log run parse curve_radius d)
         = (stash_refs_effects d @ gather_effects d stash_refs) @ [Parse l b s x r]"
proof (cases "stash_refs_step run d")
  case (Inl e)
  then have "snd (git_log run parse curve_radius d) = stash_refs_effects d"
    by (simp add: git_log_def)
  with assms show ?thesis
    by (auto simp: stash_refs_effects_def split: if_splits)
next
  case (Inr stash_refs)
  let ?started = "stash_refs_effects d @ gather_effects d stash_refs"
  have np: "Parse l b s x r \<notin> set ?started"
    by (auto simp: stash_refs_effects_def gather_effects_def)
  show ?thesis
  proof (cases "promise_all3 (run (log_args d stash_refs)) (branch_step run d)
          (promise_catch (run stash_list_cmd) [])")
    case (Inl e)
    then have "snd (git_log run parse curve_radius d) = ?started"
      using Inr by (simp add: git_log_def)
    with assms np show ?thesis by simp
  next
    case all: (Inr t)
    obtain l' b' s' where t: "t = (l', b', s')" by (cases t) auto
    have res: "run (log_args d stash_refs) = Inr l'" "branch_step run d = Inr b'"
      "promise_catch (run stash_list_cmd) [] = Inr s'"
      using all t by (simp_all add: promise_all3_Inr)
    show ?thesis
    proof (cases "l' = []")
      case True
      then have "snd (git_log run parse curve_radius d) = ?started"
        using Inr all t by (simp add: git_log_def)
      with assms np show ?thesis by simp
    next
      case False
      then have tr: "snd (git_log run parse curve_radius d)
          = ?started @ [Parse l' b' s' sep curve_radius]"
        using Inr all t by (simp add: git_log_def)
      with assms np have eq: "l = l'" "b = b'" "s = s'" "x = sep" "r = curve_radius"
        by auto
      show ?thesis
        using Inr res eq tr False by (intro exI[of _ stash_refs]) simp
    qed
  qed
qed

subsection \<open>The example request\<close>

lemma example_log_args: "log_args example_request ''a1b2c3d'' = example_log_cmd"
  by (simp add: log_args_def example_request_def example_log_cmd_def js_replace_def
      ext_format_placeholder_def stash_refs_placeholder_def pretty_format_arg_def sep_def
      replace_all_newlines_def)

lemma example_request_fields:
  "fetch_stash_refs example_request" "fetch_branches example_request"
  by (simp_all add: example_request_def)

lemma example_cmds_differ:
  "example_log_cmd \<noteq> stash_refs_cmd" "example_log_cmd \<noteq> stash_list_cmd"
  "example_log_cmd \<noteq> branch_list_cmd" "branch_list_cmd \<noteq> stash_refs_cmd"
  "branch_list_cmd \<noteq> stash_list_cmd" "stash_list_cmd \<noteq> stash_refs_cmd"
  by (simp_all add: example_log_cmd_def stash_refs_cmd_def stash_list_cmd_def
      branch_list_cmd_def)

lemma example_steps:
  "stash_refs_step (example_git ok) example_request = Inr ''a1b2c3d''"
  "example_git ok (log_args example_request ''a1b2c3d'') = Inr example_log_text"
  "branch_step (example_git ok) example_request = Inr example_branch_text"
  "promise_catch (example_git True stash_list_cmd) [] = Inr ''a1b2c3d stash-0''"
  "promise_catch (example_git False stash_list_cmd) [] = Inr []"
  "example_git False stash_list_cmd = Inl (JError ''git failed'')"
  "example_log_text \<noteq> []"
  by (simp_all add: stash_refs_step_def branch_step_def promise_catch_def example_git_def
      example_log_args example_cmds_differ example_request_fields example_log_text_def)

lemma example_git_log:
  "git_log (example_git True) example_parse (JNum 10) example_request =
     (example_parse example_log_text example_branch_text ''a1b2c3d stash-0'' sep (JNum 10),
      [GitRun stash_refs_cmd, GitRun example_log_cmd, GitRun branch_list_cmd,
       GitRun stash_list_cmd,
       Parse example_log_text example_branch_text ''a1b2c3d stash-0'' sep (JNum 10)])"
  using git_log_gathered[OF example_steps(1) example_steps(2) example_steps(3) example_steps(4),
      of example_parse "JNum 10"]
  by (simp add: example_steps(7) stash_refs_effects_def gather_effects_def example_log_args
      example_request_fields)


subsection \<open>String replacement\<close>










lemma pretty_format_arg_fields:
  "pretty_format_arg = '' --pretty=format:\"''
     @ concat (map (\<lambda>field. sep @ field) [''%H'', ''%h'', ''%aN'', ''%aE'', ''%ad'', ''%D'', ''%s''])
     @ ''\"''"
  by (simp add: pretty_format_arg_def)



subsection \<open>Numbers as property names\<close>

declare digits.simps [simp del]

lemma digits_small: "n < 10 \<Longrightarrow> digits n = [digit_char n]"
  by (subst digits.simps) simp

lemma digits_large: "\<not> n < 10 \<Longrightarrow> digits n = digits (n div 10) @ [digit_char (n mod 10)]"
  by (subst digits.simps) simp

text \<open>Reading the digits back gives the number, so different numbers have different
  names.\<close>

lemma digit_char_value: "d < 10 \<Longrightarrow> of_char (digit_char d) - 48 = d"
proof -
  assume "d < 10"
  then have "d \<in> {0, 1, 2, 3, 4, 5, 6, 7, 8, 9}" by auto
  then show ?thesis by (auto simp: digit_char_def)
qed

lemma digits_value: "foldl (\<lambda>a c. 10 * a + (of_char c - 48)) 0 (digits n) = n"
proof (induction n rule: digits.induct)
  case (1 n)
  show ?case
  proof (cases "n < 10")
    case True
    then show ?thesis by (simp add: digits_small digit_char_value)
  next
    case False
    with 1 show ?thesis by (simp add: digits_large digit_char_value)
  qed
qed

lemma to_string_num_inj:
  assumes "0 \<le> a" and "0 \<le> b" and "to_string (JNum a) = to_string (JNum b)"
  shows "a = b"
proof -
  from assms have "digits (nat a) = digits (nat b)"
    by (simp add: show_int_def)
  then have "foldl (\<lambda>a c. 10 * a + (of_char c - 48)) 0 (digits (nat a))
      = foldl (\<lambda>a c. 10 * a + (of_char c - 48)) (0::nat) (digits (nat b))"
    by simp
  then have "nat a = nat b" by (simp only: digits_value)
  with assms(1,2) show ?thesis by simp
qed

lemma property_key_num: "property_key (JNum n) = Inr (to_string (JNum n))"
  by (simp add: property_key_def)

lemma show_int_small:
  "show_int 1 = ''1''" "show_int 2 = ''2''" "show_int 3 = ''3''"
  by (simp_all add: show_int_def digits_small digit_char_def)

subsection \<open>JSON\<close>

lemma json_clean_value: "json_clean v \<Longrightarrow> json_value v = v"
proof (induction v rule: json_value.induct)
  case (1 xs)
  have "json_value x = x \<and> x \<noteq> JUndefined" if "x \<in> set xs" for x
  proof -
    from 1(2) that have c: "json_clean x" by (simp add: list_all_iff)
    then have "x \<noteq> JUndefined" by auto
    with 1(1)[OF that] c show ?thesis by simp
  qed
  then show ?case by (auto intro!: map_idI)
next
  case (2 kvs)
  have "json_value (snd kv) = snd kv \<and> snd kv \<noteq> JUndefined" if "kv \<in> set kvs" for kv
  proof -
    from 2(2) that have c: "json_clean (snd kv)" by (simp add: list_all_iff)
    then have n: "snd kv \<noteq> JUndefined" by auto
    with that have "kv \<in> set (filter (\<lambda>kv. snd kv \<noteq> JUndefined) kvs)" by simp
    from 2(1)[OF this] c n show ?thesis by simp
  qed
  then show ?case by (auto intro!: map_idI simp: filter_id_conv)
qed simp_all

subsection \<open>The invariant\<close>

lemma bridge_invI:
  assumes "0 \<le> message_id_counter st"
    and "message_id_counter st < 2 ^ 53 \<Longrightarrow>
         map msg_id (posted st) = map JNum [1..message_id_counter st]"
    and "\<And>k req. message_id_counter st < 2 ^ 53 \<Longrightarrow> response_handlers st k = Some req \<Longrightarrow>
         property_key (msg_id req) = Inr k \<and> req \<in> set (posted st)"
    and "\<And>req resp. message_id_counter st < 2 ^ 53 \<Longrightarrow> (req, resp) \<in> set (resolved st) \<Longrightarrow>
         property_key (msg_id resp) = property_key (msg_id req) \<and> req \<in> set (posted st)
         \<and> (\<exists>k. property_key (msg_id req) = Inr k \<and> response_handlers st k = None)"
    and "message_id_counter st < 2 ^ 53 \<Longrightarrow>
         distinct (map (\<lambda>(req, resp). msg_id req) (resolved st))"
  shows "bridge_inv st"
  unfolding bridge_inv_def using assms by blast

lemma bridge_invD:
  assumes "bridge_inv st" and "message_id_counter st < 2 ^ 53"
  shows "map msg_id (posted st) = map JNum [1..message_id_counter st]"
    and "\<And>k req. response_handlers st k = Some req \<Longrightarrow>
         property_key (msg_id req) = Inr k \<and> req \<in> set (posted st)"
    and "\<And>req resp. (req, resp) \<in> set (resolved st) \<Longrightarrow>
         property_key (msg_id resp) = property_key (msg_id req) \<and> req \<in> set (posted st)
         \<and> (\<exists>k. property_key (msg_id req) = Inr k \<and> response_handlers st k = None)"
    and "distinct (map (\<lambda>(req, resp). msg_id req) (resolved st))"
  using assms unfolding bridge_inv_def by blast+

lemma bridge_inv_counter: "bridge_inv st \<Longrightarrow> 0 \<le> message_id_counter st"
  by (simp add: bridge_inv_def)

lemma bridge_inv_initial: "bridge_inv initial_bridge"
  by (rule bridge_invI) (simp_all add: initial_bridge_def)

lemma posted_id_bound:
  assumes "bridge_inv st" and "message_id_counter st < 2 ^ 53" and "req \<in> set (posted st)"
  shows "\<exists>n. msg_id req = JNum n \<and> 1 \<le> n \<and> n \<le> message_id_counter st"
proof -
  from assms(3) have "msg_id req \<in> set (map msg_id (posted st))" by simp
  then have "msg_id req \<in> JNum ` {1..message_id_counter st}"
    by (simp add: bridge_invD(1)[OF assms(1,2)])
  then show ?thesis by auto
qed

lemma bridge_inv_send:
  assumes "bridge_inv st"
  shows "bridge_inv (snd (exchange_message_send command data st))"
proof -
  let ?c = "js_increment (message_id_counter st)"
  let ?req = "fst (exchange_message_send command data st)"
  let ?st = "snd (exchange_message_send command data st)"
  note c0 = bridge_inv_counter[OF assms]
  have req: "msg_id ?req = JNum ?c"
    by (simp add: exchange_message_send_def Let_def)
  have st: "message_id_counter ?st = ?c" "posted ?st = posted st @ [?req]"
    "response_handlers ?st = (response_handlers st)(to_string (JNum ?c) \<mapsto> ?req)"
    "resolved ?st = resolved st"
    by (simp_all add: exchange_message_send_def Let_def)
  have below: "message_id_counter st < 2 ^ 53 \<and> ?c = message_id_counter st + 1"
    if "message_id_counter ?st < 2 ^ 53"
    using that by (simp add: st(1) js_increment_def split: if_splits)
  show ?thesis
  proof (rule bridge_invI)
    show "0 \<le> message_id_counter ?st"
      using c0 by (simp add: st(1) js_increment_def)
  next
    assume b: "message_id_counter ?st < 2 ^ 53"
    note inv = bridge_invD[OF assms conjunct1[OF below[OF b]]]
    have c: "?c = message_id_counter st + 1" using below[OF b] by simp
    have up: "[1..message_id_counter st + 1] = [1..message_id_counter st] @ [message_id_counter st + 1]"
      using c0 upto_rec2[of 1 "message_id_counter st + 1"] by simp
    show "map msg_id (posted ?st) = map JNum [1..message_id_counter ?st]"
      by (simp add: st(1,2) req c up inv(1))
  next
    fix k r
    assume b: "message_id_counter ?st < 2 ^ 53" and h: "response_handlers ?st k = Some r"
    note inv = bridge_invD[OF assms conjunct1[OF below[OF b]]]
    show "property_key (msg_id r) = Inr k \<and> r \<in> set (posted ?st)"
    proof (cases "k = to_string (JNum ?c)")
      case True
      with h have "r = ?req" by (simp add: st(3))
      with True show ?thesis by (simp add: req st(2) property_key_num)
    next
      case False
      with h have "response_handlers st k = Some r" by (simp add: st(3))
      from inv(2)[OF this] show ?thesis by (simp add: st(2))
    qed
  next
    fix r resp
    assume b: "message_id_counter ?st < 2 ^ 53" and m': "(r, resp) \<in> set (resolved ?st)"
    note inv = bridge_invD[OF assms conjunct1[OF below[OF b]]]
    have c: "?c = message_id_counter st + 1" using below[OF b] by simp
    from m' have m: "(r, resp) \<in> set (resolved st)" by (simp add: st(4))
    note f = inv(3)[OF m]
    from f obtain n where n: "msg_id r = JNum n" "1 \<le> n" "n \<le> message_id_counter st"
      using posted_id_bound[OF assms conjunct1[OF below[OF b]]] by blast
    from f obtain k where k: "property_key (msg_id r) = Inr k" "response_handlers st k = None"
      by blast
    from k(1) n(1) have kn: "k = to_string (JNum n)" by (simp add: property_key_num)
    have "k \<noteq> to_string (JNum ?c)"
    proof
      assume "k = to_string (JNum ?c)"
      with kn have "n = ?c"
        using to_string_num_inj[of n ?c] n c0 c by simp
      with n(3) c show False by simp
    qed
    with k have "property_key (msg_id r) = Inr k \<and> response_handlers ?st k = None"
      by (simp add: st(3))
    with f show "property_key (msg_id resp) = property_key (msg_id r) \<and> r \<in> set (posted ?st)
        \<and> (\<exists>k. property_key (msg_id r) = Inr k \<and> response_handlers ?st k = None)"
      by (auto simp: st(2))
  next
    assume b: "message_id_counter ?st < 2 ^ 53"
    note inv = bridge_invD[OF assms conjunct1[OF below[OF b]]]
    show "distinct (map (\<lambda>(req, resp). msg_id req) (resolved ?st))"
      using inv(4) by (simp add: st(4))
  qed
qed

lemma bridge_inv_dispatch:
  assumes "bridge_inv st"
    and "property_key (msg_id message) = Inr key"
    and "response_handlers st key = Some handler"
  shows "bridge_inv (dispatch_response key handler message st)"
proof -
  let ?st = "dispatch_response key handler message st"
  have st: "message_id_counter ?st = message_id_counter st" "posted ?st = posted st"
    "response_handlers ?st = (response_handlers st)(key := None)"
    "resolved ?st = resolved st @ [(handler, message)]"
    by (simp_all add: dispatch_response_def)
  show ?thesis
  proof (rule bridge_invI)
    show "0 \<le> message_id_counter ?st"
      using bridge_inv_counter[OF assms(1)] by (simp add: st(1))
  next
    assume "message_id_counter ?st < 2 ^ 53"
    then have b: "message_id_counter st < 2 ^ 53" by (simp add: st(1))
    note inv = bridge_invD[OF assms(1) b]
    show "map msg_id (posted ?st) = map JNum [1..message_id_counter ?st]"
      by (simp add: st(1,2) inv(1))
  next
    fix k r
    assume "message_id_counter ?st < 2 ^ 53" and h: "response_handlers ?st k = Some r"
    then have b: "message_id_counter st < 2 ^ 53" by (simp add: st(1))
    note inv = bridge_invD[OF assms(1) b]
    from h have "response_handlers st k = Some r"
      by (simp add: st(3) split: if_splits)
    from inv(2)[OF this] show "property_key (msg_id r) = Inr k \<and> r \<in> set (posted ?st)"
      by (simp add: st(2))
  next
    fix r resp
    assume "message_id_counter ?st < 2 ^ 53" and m': "(r, resp) \<in> set (resolved ?st)"
    then have b: "message_id_counter st < 2 ^ 53" by (simp add: st(1))
    note inv = bridge_invD[OF assms(1) b]
    from inv(2)[OF assms(3)] have hd: "property_key (msg_id handler) = Inr key"
      "handler \<in> set (posted st)" by simp_all
    show "property_key (msg_id resp) = property_key (msg_id r) \<and> r \<in> set (posted ?st)
        \<and> (\<exists>k. property_key (msg_id r) = Inr k \<and> response_handlers ?st k = None)"
    proof (cases "(r, resp) = (handler, message)")
      case True
      then show ?thesis using hd assms(2) by (simp add: st(2,3))
    next
      case False
      with m' have m: "(r, resp) \<in> set (resolved st)" by (auto simp: st(4))
      from inv(3)[OF m] show ?thesis by (auto simp: st(2,3))
    qed
  next
    assume "message_id_counter ?st < 2 ^ 53"
    then have b: "message_id_counter st < 2 ^ 53" by (simp add: st(1))
    note inv = bridge_invD[OF assms(1) b]
    from inv(2)[OF assms(3)] have hd: "property_key (msg_id handler) = Inr key" by simp
    have "msg_id handler \<notin> set (map (\<lambda>(req, resp). msg_id req) (resolved st))"
    proof
      assume "msg_id handler \<in> set (map (\<lambda>(req, resp). msg_id req) (resolved st))"
      then obtain r resp where m: "(r, resp) \<in> set (resolved st)" and e: "msg_id r = msg_id handler"
        by (auto simp: image_iff)
      from inv(3)[OF m] e hd assms(3) show False by auto
    qed
    then show "distinct (map (\<lambda>(req, resp). msg_id req) (resolved ?st))"
      using inv(4) by (simp add: st(4))
  qed
qed

lemma bridge_inv_chunks:
  "bridge_inv (st\<lparr>response_chunks := cs\<rparr>) = bridge_inv st"
  by (simp add: bridge_inv_def)

lemma bridge_inv_listener:
  assumes "bridge_inv st"
  shows "bridge_inv (snd (window_message_listener push message st))"
proof (cases "msg_type message = ''response-to-web''")
  case True
  show ?thesis
  proof (cases "property_key (msg_id message)")
    case (Inl thrown)
    with True assms show ?thesis by (simp add: window_message_listener_def)
  next
    case (Inr key)
    show ?thesis
    proof (cases "response_handlers st key")
      case None
      with True Inr assms show ?thesis by (simp add: window_message_listener_def)
    next
      case (Some handler)
      have 1: "bridge_inv (dispatch_response key handler message st)"
        using bridge_inv_dispatch[OF assms Inr Some] .
      have 2: "bridge_inv (dispatch_response key handler (message\<lparr>msg_data := v\<rparr>)
                  (st\<lparr>response_chunks := cs\<rparr>))" for v cs
      proof (rule bridge_inv_dispatch)
        show "bridge_inv (st\<lparr>response_chunks := cs\<rparr>)"
          using assms by (simp add: bridge_inv_chunks)
        show "property_key (msg_id (message\<lparr>msg_data := v\<rparr>)) = Inr key"
          using Inr by simp
        show "response_handlers (st\<lparr>response_chunks := cs\<rparr>) key = Some handler"
          using Some by simp
      qed
      have 3: "bridge_inv (st\<lparr>response_chunks := cs\<rparr>)" for cs
        using assms by (simp add: bridge_inv_chunks)
      show ?thesis
        using True Inr Some assms 1 2 3
        by (simp add: window_message_listener_def Let_def split: sum.splits)
    qed
  qed
next
  case False
  with assms show ?thesis by (simp add: window_message_listener_def)
qed

lemma bridge_inv_step: "bridge_inv st \<Longrightarrow> bridge_inv (step push ev st)"
  by (cases ev) (simp_all add: bridge_inv_send bridge_inv_listener)

lemma bridge_inv_fold: "bridge_inv st \<Longrightarrow> bridge_inv (fold (step push) evs st)"
  by (induction evs arbitrary: st) (simp_all add: bridge_inv_step)

lemma bridge_inv_run_events: "bridge_inv (run_events push evs)"
  by (simp add: run_events_def bridge_inv_fold bridge_inv_initial)

lemma distinct_ids: "distinct (map JNum [i..j])"
  by (simp add: distinct_map inj_on_def)

subsection \<open>The counter at its limit\<close>

lemma step_exchange_counter:
  "message_id_counter (step push (Exchange command data) st) = js_increment (message_id_counter st)"
  by (simp add: exchange_message_send_def Let_def)

lemma step_exchange_last:
  "posted (step push (Exchange command data) st) \<noteq> []
   \<and> msg_id (last (posted (step push (Exchange command data) st)))
       = JNum (message_id_counter (step push (Exchange command data) st))"
  by (simp add: exchange_message_send_def Let_def)

lemma calls_counter:
  "message_id_counter ((step push (Exchange command data) ^^ n) initial_bridge) = min (int n) (2 ^ 53)"
proof (induction n)
  case 0
  show ?case by (simp add: initial_bridge_def)
next
  case (Suc n)
  then show ?case
    by (simp add: step_exchange_counter js_increment_def min_def del: step.simps)
qed

lemma calls_last:
  "0 < n \<Longrightarrow>
   msg_id (last (posted ((step push (Exchange command data) ^^ n) initial_bridge)))
     = JNum (min (int n) (2 ^ 53))"
proof (cases n)
  case 0
  then show "0 < n \<Longrightarrow> ?thesis" by simp
next
  case (Suc m)
  have "msg_id (last (posted ((step push (Exchange command data) ^^ Suc m) initial_bridge)))
      = JNum (message_id_counter ((step push (Exchange command data) ^^ Suc m) initial_bridge))"
    using step_exchange_last[of push command data "(step push (Exchange command data) ^^ m) initial_bridge"]
    by (simp del: step.simps)
  then show ?thesis using Suc by (simp only: calls_counter)
qed

lemma run_events_replicate:
  "run_events push (replicate n ev) = (step push ev ^^ n) initial_bridge"
  by (simp add: run_events_def fold_replicate)

subsection \<open>The example events\<close>

lemma property_key_str: "property_key (JStr s) = Inr s"
  by (simp add: property_key_def)

lemma send_at_limit:
  assumes "message_id_counter st = 2 ^ 53"
  shows "message_id_counter (snd (exchange_message_send command data st)) = 2 ^ 53"
    and "msg_id (fst (exchange_message_send command data st)) = JNum (2 ^ 53)"
  using assms by (simp_all add: exchange_message_send_def Let_def js_increment_def)

lemma example_events_run:
  "map msg_id (posted (run_events example_push example_events)) = [JNum 1, JNum 2]"
  "map (\<lambda>(req, resp). (msg_id req, msg_command req, msg_id resp, msg_data resp, msg_error resp))
      (resolved (run_events example_push example_events))
    = [(JNum 2, ''git-log'', JNum 2, JObj [(''commits'', JArr []), (''refs'', JArr [])], None),
       (JNum 1, ''git'', JNum 1, JUndefined, Some (JStr ''not a git repository''))]"
  "message_id_counter (run_events example_push example_events) = 2"
  "response_handlers (run_events example_push example_events) ''1'' = None"
  "response_handlers (run_events example_push example_events) ''2'' = None"
  by (simp_all add: run_events_def example_events_def example_response_def initial_bridge_def
      exchange_message_send_def window_message_listener_def dispatch_response_def Let_def
      js_increment_def property_key_num show_int_small property_key_str object_prototype_members_def
      inherited_call_returns_def)

lemma example_string_id:
  "map (\<lambda>(req, resp). (msg_id req, msg_id resp))
      (resolved (run_events example_push
         [Exchange ''git'' JNull, Message (example_response (JStr ''1'') JNull None)]))
    = [(JNum 1, JStr ''1'')]"
  by (simp add: run_events_def example_response_def initial_bridge_def
      exchange_message_send_def window_message_listener_def dispatch_response_def Let_def
      js_increment_def property_key_num show_int_small property_key_str)

section \<open>Properties of the \<^verbatim>\<open>git-log\<close> command\<close>

text \<open>
  C1. When the history-listing command prints nothing (the three texts have been
  gathered and the log text is empty), the \<^verbatim>\<open>git-log\<close> command returns
  \<^verbatim>\<open>{ commits: [], refs: [] }\<close> and \<^verbatim>\<open>parse\<close> is not called: no \<^verbatim>\<open>parse\<close> call is among
  the effects, whatever \<^verbatim>\<open>parse\<close> would do.
\<close>

theorem git_log_empty_log_text:
  assumes "stash_refs_step run d = Inr stash_refs"
    and "run (log_args d stash_refs) = Inr []"
    and "branch_step run d = Inr branch_data"
  shows "fst (git_log run parse curve_radius d) = Inr (JObj [(''commits'', JArr []), (''refs'', JArr [])])
    \<and> filter is_parse (snd (git_log run parse curve_radius d)) = []"
proof -
  obtain stash_data where c: "promise_catch (run stash_list_cmd) [] = Inr stash_data"
    by (cases "run stash_list_cmd") (simp_all add: promise_catch_def)
  show ?thesis
    using git_log_gathered[OF assms c, of parse curve_radius]
    by (simp add: empty_parsed_def is_parse_started)
qed

theorem git_log_empty_log_text_witness:
  "stash_refs_step (\<lambda>c. if c = stash_refs_cmd then Inr ''a1b2c3d'' else Inr [])
       \<lparr>args = ''log --graph'', fetch_stash_refs = True, fetch_branches = False\<rparr> = Inr ''a1b2c3d''
   \<and> fst (git_log (\<lambda>c. if c = stash_refs_cmd then Inr ''a1b2c3d'' else Inr [])
            (\<lambda>l b s x r. Inl (JStr ''parse was called'')) (JNum 10)
            \<lparr>args = ''log --graph'', fetch_stash_refs = True, fetch_branches = False\<rparr>)
       = Inr (JObj [(''commits'', JArr []), (''refs'', JArr [])])
   \<and> filter is_parse (snd (git_log (\<lambda>c. if c = stash_refs_cmd then Inr ''a1b2c3d'' else Inr [])
            (\<lambda>l b s x r. Inl (JStr ''parse was called'')) (JNum 10)
            \<lparr>args = ''log --graph'', fetch_stash_refs = True, fetch_branches = False\<rparr>)) = []"
  using git_log_empty_log_text
    [where run = "\<lambda>c. if c = stash_refs_cmd then Inr ''a1b2c3d'' else Inr []"
       and d = "\<lparr>args = ''log --graph'', fetch_stash_refs = True, fetch_branches = False\<rparr>"
       and stash_refs = "''a1b2c3d''" and branch_data = "[]"
       and parse = "\<lambda>l b s x r. Inl (JStr ''parse was called'')" and curve_radius = "JNum 10"]
  by (simp add: stash_refs_step_def branch_step_def log_args_def js_replace_def
      ext_format_placeholder_def stash_refs_placeholder_def stash_refs_cmd_def)







text \<open>
  C4. \<^verbatim>\<open>parse\<close> is called only after the three texts are there: whenever a \<^verbatim>\<open>parse\<close> call
  is among the effects of the \<^verbatim>\<open>git-log\<close> command, the history-listing command and the
  branch listing have printed the strings it is given as log text and branch text
  (the branch text is the empty string when no branches are fetched), the stash
  text is what the stash listing printed or the empty string it is replaced by, and
  the call is the last effect: the git commands were all started before it and no
  other \<^verbatim>\<open>parse\<close> call precedes it.
\<close>

theorem parse_after_gather:
  assumes "Parse l b s x r \<in> set (snd (git_log run parse curve_radius d))"
  shows "\<exists>stash_refs started.
      run (log_args d stash_refs) = Inr l
    \<and> branch_step run d = Inr b
    \<and> promise_catch (run stash_list_cmd) [] = Inr s
    \<and> snd (git_log run parse curve_radius d) = started @ [Parse l b s x r]
    \<and> filter is_parse started = []
    \<and> GitRun (log_args d stash_refs) \<in> set started
    \<and> (if fetch_branches d then GitRun branch_list_cmd \<in> set started else b = [])
    \<and> GitRun stash_list_cmd \<in> set started"
proof -
  from git_log_parse_effectD[OF assms] obtain stash_refs where
    res: "run (log_args d stash_refs) = Inr l" "branch_step run d = Inr b"
      "promise_catch (run stash_list_cmd) [] = Inr s"
    and tr: "snd (git_log run parse curve_radius d)
         = (stash_refs_effects d @ gather_effects d stash_refs) @ [Parse l b s x r]"
    by blast
  let ?started = "stash_refs_effects d @ gather_effects d stash_refs"
  have br: "if fetch_branches d then GitRun branch_list_cmd \<in> set ?started else b = []"
    using res(2) by (auto simp: gather_effects_def branch_step_def)
  have mem: "GitRun (log_args d stash_refs) \<in> set ?started" "GitRun stash_list_cmd \<in> set ?started"
    by (simp_all add: gather_effects_def)
  have np: "filter is_parse ?started = []"
    by (simp add: is_parse_started)
  show ?thesis
    using res tr br mem np by (intro exI[of _ stash_refs] exI[of _ ?started]) simp
qed

theorem parse_after_gather_witness:
  "Parse example_log_text example_branch_text ''a1b2c3d stash-0'' sep (JNum 10)
     \<in> set (snd (git_log (example_git True) example_parse (JNum 10) example_request))
   \<and> (\<exists>stash_refs started.
        example_git True (log_args example_request stash_refs) = Inr example_log_text
      \<and> branch_step (example_git True) example_request = Inr example_branch_text
      \<and> promise_catch (example_git True stash_list_cmd) [] = Inr ''a1b2c3d stash-0''
      \<and> snd (git_log (example_git True) example_parse (JNum 10) example_request)
          = started @ [Parse example_log_text example_branch_text ''a1b2c3d stash-0'' sep (JNum 10)]
      \<and> filter is_parse started = []
      \<and> GitRun (log_args example_request stash_refs) \<in> set started
      \<and> (if fetch_branches example_request then GitRun branch_list_cmd \<in> set started
          else example_branch_text = [])
      \<and> GitRun stash_list_cmd \<in> set started)"
proof -
  have m: "Parse example_log_text example_branch_text ''a1b2c3d stash-0'' sep (JNum 10)
     \<in> set (snd (git_log (example_git True) example_parse (JNum 10) example_request))"
    by (simp add: example_git_log)
  from parse_after_gather[OF m] m show ?thesis by blast
qed

text \<open>
  C2, as the code has it. The specification describes a record delimiter of the branch
  listing that differs from the separator of the log lines. The branch listing is requested
  with the format \<^verbatim>\<open>%(upstream:remotename)\<close>, the separator \<^verbatim>\<open>sep\<close> itself, \<^verbatim>\<open>%(refname)\<close>: no
  text other than \<^verbatim>\<open>sep\<close> joins the two fields.
\<close>

theorem branch_delimiter_not_distinct:
  "\<not> (\<exists>sep2. sep2 \<noteq> sep
        \<and> branch_list_cmd = ''branch --list --all --format=\"%(upstream:remotename)'' @ sep2 @ ''%(refname)\"'')"
  by (simp add: branch_list_cmd_def)

text \<open>
  C2, amended. Whenever \<^verbatim>\<open>parse\<close> is called, the separator it is given is the token
  that joins the remote name and the ref name in the format of the branch listing
  and that precedes each of the seven fields in the format of the log lines; the
  branch text it is given is what that branch listing printed, or the empty string
  when the request fetches no branches.
\<close>

theorem branch_listing_separator:
  assumes "Parse l b s x r \<in> set (snd (git_log run parse curve_radius d))"
  shows "x = sep
    \<and> branch_list_cmd = ''branch --list --all --format=\"%(upstream:remotename)'' @ x @ ''%(refname)\"''
    \<and> pretty_format_arg = '' --pretty=format:\"''
         @ concat (map (\<lambda>field. x @ field) [''%H'', ''%h'', ''%aN'', ''%aE'', ''%ad'', ''%D'', ''%s''])
         @ ''\"''
    \<and> (if fetch_branches d
        then run branch_list_cmd = Inr b \<and> GitRun branch_list_cmd \<in> set (snd (git_log run parse curve_radius d))
        else b = [])"
proof -
  from git_log_parse_effectD[OF assms] obtain stash_refs where
    x: "x = sep" and br: "branch_step run d = Inr b"
    and tr: "snd (git_log run parse curve_radius d)
         = (stash_refs_effects d @ gather_effects d stash_refs) @ [Parse l b s x r]"
    by blast
  have "if fetch_branches d
        then run branch_list_cmd = Inr b \<and> GitRun branch_list_cmd \<in> set (snd (git_log run parse curve_radius d))
        else b = []"
    using br by (auto simp: tr branch_step_def gather_effects_def split: if_splits)
  then show ?thesis
    by (simp add: x branch_list_cmd_def pretty_format_arg_def)
qed

theorem branch_listing_separator_witness:
  "Parse example_log_text example_branch_text ''a1b2c3d stash-0'' sep (JNum 10)
     \<in> set (snd (git_log (example_git True) example_parse (JNum 10) example_request))
   \<and> branch_list_cmd = ''branch --list --all --format=\"%(upstream:remotename)^%^%^%^%^%(refname)\"''
   \<and> example_git True branch_list_cmd = Inr example_branch_text
   \<and> GitRun branch_list_cmd
       \<in> set (snd (git_log (example_git True) example_parse (JNum 10) example_request))"
proof -
  have m: "Parse example_log_text example_branch_text ''a1b2c3d stash-0'' sep (JNum 10)
     \<in> set (snd (git_log (example_git True) example_parse (JNum 10) example_request))"
    by (simp add: example_git_log)
  from branch_listing_separator[OF m] m show ?thesis
    by (simp add: example_request_fields sep_def)
qed




section \<open>Properties of the message bridge\<close>

text \<open>
  C9, as the code has it. \<^verbatim>\<open>post_message\<close> posts through
  \<^verbatim>\<open>webview_container?.webview.postMessage\<close>. When the container is \<^verbatim>\<open>null\<close> by the time
  the command's function has settled (the panel was disposed meanwhile), no response
  is posted for the request.
\<close>

theorem h_without_container:
  "posted_messages (snd (on_did_receive_message (\<lambda>m. Inr (JStr ''done'')) example_message None)) = []
   \<and> \<not> (\<exists>resp. posted_messages
            (snd (on_did_receive_message (\<lambda>m. Inr (JStr ''done'')) example_message None)) = [resp])"
  by (simp add: on_did_receive_message_def h_def post_message_def posted_messages_def
      example_message_def h_commands_def)

text \<open>
  C9, amended. For a \<^verbatim>\<open>request-from-web\<close> message whose command is answered through
  \<^verbatim>\<open>h\<close>, a container that exists when the command's function has settled, and a
  function that returns or throws a value other than \<^verbatim>\<open>undefined\<close> and \<^verbatim>\<open>null\<close>, exactly
  one message is posted: the JSON text of a \<^verbatim>\<open>response-to-web\<close> built with the id of
  the request, which the text carries unchanged when it is built from \<^verbatim>\<open>null\<close>,
  booleans, numbers, strings, arrays and plain objects only (the ids of
  \<^verbatim>\<open>bridge.js\<close> are numbers). When the function returns, the response's data is the result and no
  error is set. When it throws, the response's error is the thrown value's
  \<^verbatim>\<open>message\<close> if that is truthy and the thrown value otherwise, and its data is
  \<^verbatim>\<open>undefined\<close>. (Every value but \<^verbatim>\<open>undefined\<close> and \<^verbatim>\<open>null\<close> has a \<^verbatim>\<open>message\<close> that can be read.)
\<close>

theorem h_posts_one_response:
  assumes "msg_type message = ''request-from-web''"
    and "msg_command message \<in> set h_commands"
  shows "(\<forall>data. func message = Inr data \<longrightarrow>
            on_did_receive_message func message (Some ms)
              = (Inr (), Some (ms @ [json_stringify (response_to message data None)])))
    \<and> (\<forall>error m. func message = Inl error \<and> get_message error = Inr m \<longrightarrow>
            on_did_receive_message func message (Some ms)
              = (Inr (), Some (ms @ [json_stringify (response_to message JUndefined
                                      (Some (if truthy m then m else error)))])))
    \<and> (\<forall>error. func message = Inl error \<and> error \<noteq> JUndefined \<and> error \<noteq> JNull \<longrightarrow>
            (\<exists>m. get_message error = Inr m))
    \<and> (\<forall>data err. msg_type (response_to message data err) = ''response-to-web''
                  \<and> msg_id (response_to message data err) = msg_id message
                  \<and> msg_data (response_to message data err) = data
                  \<and> msg_error (response_to message data err) = err)
    \<and> (\<forall>data err. json_clean (msg_id message) \<longrightarrow>
            msg_id (json_stringify (response_to message data err)) = msg_id message)"
proof -
  have g: "\<exists>m. get_message error = Inr m" if "error \<noteq> JUndefined" "error \<noteq> JNull" for error
    using that by (cases error) simp_all
  have i: "msg_id (json_stringify (response_to message data err)) = msg_id message"
    if "json_clean (msg_id message)" for data err
    using that by (simp add: json_stringify_def response_to_def json_clean_value)
  show ?thesis
    using assms g i
    by (simp add: on_did_receive_message_def h_def post_message_def response_to_def js_or_def)
qed

theorem h_posts_one_response_witness:
  "msg_type example_message = ''request-from-web''
   \<and> msg_command example_message \<in> set h_commands
   \<and> on_did_receive_message (\<lambda>m. Inr (JStr ''done'')) example_message (Some [])
       = (Inr (), Some [json_stringify (response_to example_message (JStr ''done'') None)])
   \<and> on_did_receive_message (\<lambda>m. Inl (JError ''git failed'')) example_message (Some [])
       = (Inr (), Some [json_stringify (response_to example_message JUndefined (Some (JStr ''git failed'')))])
   \<and> on_did_receive_message (\<lambda>m. Inl (JStr ''oops'')) example_message (Some [])
       = (Inr (), Some [json_stringify (response_to example_message JUndefined (Some (JStr ''oops'')))])
   \<and> msg_id (json_stringify (response_to example_message (JStr ''done'') None)) = JNum 7"
proof -
  have t: "msg_type example_message = ''request-from-web''"
    and c: "msg_command example_message \<in> set h_commands"
    by (simp_all add: example_message_def h_commands_def)
  from h_posts_one_response[OF t c, of "\<lambda>m. Inr (JStr ''done'')" "[]"]
  have 1: "on_did_receive_message (\<lambda>m. Inr (JStr ''done'')) example_message (Some [])
       = (Inr (), Some [json_stringify (response_to example_message (JStr ''done'') None)])"
    and 4: "msg_id (json_stringify (response_to example_message (JStr ''done'') None)) = JNum 7"
    by (simp_all add: example_message_def)
  from h_posts_one_response[OF t c, of "\<lambda>m. Inl (JError ''git failed'')" "[]"]
  have 2: "on_did_receive_message (\<lambda>m. Inl (JError ''git failed'')) example_message (Some [])
       = (Inr (), Some [json_stringify (response_to example_message JUndefined (Some (JStr ''git failed'')))])"
    by simp
  from h_posts_one_response[OF t c, of "\<lambda>m. Inl (JStr ''oops'')" "[]"]
  have 3: "on_did_receive_message (\<lambda>m. Inl (JStr ''oops'')) example_message (Some [])
       = (Inr (), Some [json_stringify (response_to example_message JUndefined (Some (JStr ''oops'')))])"
    by simp
  from t c 1 2 3 4 show ?thesis by blast
qed

text \<open>
  C8, as the code has it. The counter is a JavaScript number: at \<open>2^53\<close> the increment
  leaves it as it is, and the next request carries the id of the one before. And
  the handlers are properties of an object: a response whose id is the string
  \<^verbatim>\<open>"1"\<close> resolves the promise of the request whose id is the number \<open>1\<close>.
\<close>

theorem bridge_ids_repeat:
  "message_id_counter (run_events example_push (replicate (2 ^ 53) (Exchange ''git'' JNull))) = 2 ^ 53
   \<and> message_id_counter (snd (exchange_message_send ''git'' JNull
         (run_events example_push (replicate (2 ^ 53) (Exchange ''git'' JNull))))) = 2 ^ 53
   \<and> msg_id (fst (exchange_message_send ''git'' JNull
         (run_events example_push (replicate (2 ^ 53) (Exchange ''git'' JNull)))))
       = msg_id (last (posted (run_events example_push (replicate (2 ^ 53) (Exchange ''git'' JNull)))))
   \<and> map (\<lambda>(req, resp). (msg_id req, msg_id resp))
        (resolved (run_events example_push
           [Exchange ''git'' JNull, Message (example_response (JStr ''1'') JNull None)]))
       = [(JNum 1, JStr ''1'')]"
proof -
  let ?st = "run_events example_push (replicate (2 ^ 53) (Exchange ''git'' JNull))"
  have c: "message_id_counter ?st = 2 ^ 53"
    by (simp add: run_events_replicate calls_counter)
  have l: "msg_id (last (posted ?st)) = JNum (2 ^ 53)"
    using calls_last[of "2 ^ 53" example_push "''git''" JNull]
    by (simp add: run_events_replicate)
  note s = send_at_limit[OF c, of "''git''" JNull]
  from c l s example_string_id show ?thesis by (simp only:)
qed

text \<open>
  C8, amended. After any sequence of \<^verbatim>\<open>exchange_message\<close> calls and arriving messages
  that leaves the counter below \<open>2^53\<close>: a call of \<^verbatim>\<open>exchange_message\<close> increments the
  counter, sends a request whose id is the new counter and stores its handler under
  that id; the requests posted so far carry the ids \<open>1\<close> to the counter, so no two
  carry the same id; no request's handler was invoked twice; and every handler that
  was invoked was invoked with a response whose id names the same property as its
  own request's id, and is deleted from \<^verbatim>\<open>response_handlers\<close>.
\<close>

theorem bridge_ids:
  assumes "message_id_counter (run_events push evs) < 2 ^ 53"
  shows "message_id_counter (snd (exchange_message_send command data (run_events push evs)))
       = message_id_counter (run_events push evs) + 1
   \<and> msg_id (fst (exchange_message_send command data (run_events push evs)))
       = JNum (message_id_counter (run_events push evs) + 1)
   \<and> posted (snd (exchange_message_send command data (run_events push evs)))
       = posted (run_events push evs) @ [fst (exchange_message_send command data (run_events push evs))]
   \<and> response_handlers (snd (exchange_message_send command data (run_events push evs)))
         (to_string (msg_id (fst (exchange_message_send command data (run_events push evs)))))
       = Some (fst (exchange_message_send command data (run_events push evs)))
   \<and> map msg_id (posted (run_events push evs)) = map JNum [1..message_id_counter (run_events push evs)]
   \<and> distinct (map msg_id (posted (run_events push evs)))
   \<and> distinct (map fst (resolved (run_events push evs)))
   \<and> (\<forall>(req, resp) \<in> set (resolved (run_events push evs)).
          property_key (msg_id resp) = property_key (msg_id req)
        \<and> req \<in> set (posted (run_events push evs))
        \<and> (\<exists>key. property_key (msg_id resp) = Inr key
                \<and> response_handlers (run_events push evs) key = None))"
proof -
  let ?st = "run_events push evs"
  note inv = bridge_invD[OF bridge_inv_run_events[of push evs] assms]
  have d1: "distinct (map msg_id (posted ?st))"
    by (simp add: inv(1) distinct_ids)
  have "distinct (map msg_id (map fst (resolved ?st)))"
    using inv(4) by (simp add: comp_def case_prod_unfold)
  then have d2: "distinct (map fst (resolved ?st))"
    using distinct_map[of msg_id "map fst (resolved ?st)"] by blast
  have r: "\<forall>(req, resp) \<in> set (resolved ?st).
          property_key (msg_id resp) = property_key (msg_id req) \<and> req \<in> set (posted ?st)
        \<and> (\<exists>key. property_key (msg_id resp) = Inr key \<and> response_handlers ?st key = None)"
  proof (clarify)
    fix req resp
    assume "(req, resp) \<in> set (resolved ?st)"
    from inv(3)[OF this]
    show "property_key (msg_id resp) = property_key (msg_id req) \<and> req \<in> set (posted ?st)
        \<and> (\<exists>key. property_key (msg_id resp) = Inr key \<and> response_handlers ?st key = None)"
      by auto
  qed
  have s: "message_id_counter (snd (exchange_message_send command data ?st))
       = message_id_counter ?st + 1"
    "msg_id (fst (exchange_message_send command data ?st)) = JNum (message_id_counter ?st + 1)"
    "posted (snd (exchange_message_send command data ?st))
       = posted ?st @ [fst (exchange_message_send command data ?st)]"
    "response_handlers (snd (exchange_message_send command data ?st))
         (to_string (msg_id (fst (exchange_message_send command data ?st))))
       = Some (fst (exchange_message_send command data ?st))"
    using assms by (simp_all add: exchange_message_send_def Let_def js_increment_def)
  show ?thesis
    using s inv(1) d1 d2 r by blast
qed

theorem bridge_ids_witness:
  "message_id_counter (run_events example_push example_events) < 2 ^ 53
   \<and> map msg_id (posted (run_events example_push example_events)) = [JNum 1, JNum 2]
   \<and> map (\<lambda>(req, resp). (msg_id req, msg_id resp)) (resolved (run_events example_push example_events))
       = [(JNum 2, JNum 2), (JNum 1, JNum 1)]
   \<and> distinct (map msg_id (posted (run_events example_push example_events)))
   \<and> distinct (map fst (resolved (run_events example_push example_events)))
   \<and> msg_id (fst (exchange_message_send ''git'' JNull (run_events example_push example_events))) = JNum 3
   \<and> response_handlers (run_events example_push example_events) ''1'' = None
   \<and> response_handlers (run_events example_push example_events) ''2'' = None"
proof -
  have b: "message_id_counter (run_events example_push example_events) < 2 ^ 53"
    by (simp add: example_events_run(3))
  have "map (\<lambda>(req, resp). (msg_id req, msg_id resp)) (resolved (run_events example_push example_events))
      = map (\<lambda>(a, b, c, d, e). (a, c))
          (map (\<lambda>(req, resp). (msg_id req, msg_command req, msg_id resp, msg_data resp, msg_error resp))
             (resolved (run_events example_push example_events)))"
    by (simp add: case_prod_unfold)
  then have r: "map (\<lambda>(req, resp). (msg_id req, msg_id resp)) (resolved (run_events example_push example_events))
       = [(JNum 2, JNum 2), (JNum 1, JNum 1)]"
    by (simp only: example_events_run(2)) simp
  from bridge_ids[OF b, of "''git''" JNull]
  have d: "distinct (map msg_id (posted (run_events example_push example_events)))"
    "distinct (map fst (resolved (run_events example_push example_events)))"
    and n: "msg_id (fst (exchange_message_send ''git'' JNull (run_events example_push example_events)))
      = JNum (message_id_counter (run_events example_push example_events) + 1)"
    by blast+
  from n have "msg_id (fst (exchange_message_send ''git'' JNull (run_events example_push example_events))) = JNum 3"
    by (simp add: example_events_run(3))
  with b d r example_events_run(1,4,5) show ?thesis by blast
qed

text \<open>
  C10. Once its promise is resolved with a response, \<^verbatim>\<open>exchange_message\<close> throws if
  and only if the response carries an error that is not empty in the sense of
  JavaScript's \<^verbatim>\<open>if (resp.error)\<close> (present and not \<^verbatim>\<open>undefined\<close>, \<^verbatim>\<open>null\<close>, \<^verbatim>\<open>false\<close>, \<^verbatim>\<open>0\<close> or
  the empty string); the error it throws holds that error and the request; otherwise
  it returns the response's data.
\<close>

theorem exchange_message_throws_iff:
  "((\<exists>err. exchange_message_result request resp = Inl err)
      \<longleftrightarrow> (\<exists>e. msg_error resp = Some e \<and> truthy e))
   \<and> exchange_message_result request resp
       = (if \<exists>e. msg_error resp = Some e \<and> truthy e
          then Inl (ExchangeError (the (msg_error resp)) request)
          else Inr (msg_data resp))"
  by (cases "msg_error resp") (auto simp: exchange_message_result_def read_error_def)

theorem exchange_message_throws_iff_witness:
  "exchange_message_result example_message
       (response_to example_message JUndefined (Some (JStr ''git failed'')))
     = Inl (ExchangeError (JStr ''git failed'') example_message)
   \<and> exchange_message_result example_message
       (response_to example_message (JStr ''done'') None) = Inr (JStr ''done'')
   \<and> exchange_message_result example_message
       (response_to example_message (JStr ''kept'') (Some (JStr []))) = Inr (JStr ''kept'')"
  using exchange_message_throws_iff
      [of example_message "response_to example_message JUndefined (Some (JStr ''git failed''))"]
    exchange_message_throws_iff
      [of example_message "response_to example_message (JStr ''done'') None"]
    exchange_message_throws_iff
      [of example_message "response_to example_message (JStr ''kept'') (Some (JStr []))"]
  by (simp add: response_to_def)

end
